theory Spec2Isabelle
  imports Main
begin

section \<open>The setting form: grouping and filtering component props\<close>

text \<open>
  The functions \<^verbatim>\<open>normalizeComponentProps\<close> and \<^verbatim>\<open>filterComponentProps\<close> of
  \<^verbatim>\<open>packages/setting-form/src/form.tsx\<close> are embedded below. A thrown JavaScript
  exception is a value of \<open>js_error\<close>, and a function that may throw returns
  \<open>js_error + 'r\<close>.
\<close>

datatype js_error = TypeError | SyntaxError

text \<open>
  Modelled from the spec: the type \<^verbatim>\<open>ComponentPropType\<close> is declared in the helpers package,
  which is not among the sources. The spec describes a property schema as a property name,
  a grouping tag and further data; the fields that \<^verbatim>\<open>form.tsx\<close> reads are \<^verbatim>\<open>name\<close>,
  \<^verbatim>\<open>title\<close>, \<^verbatim>\<open>group\<close> and the nested \<^verbatim>\<open>props\<close>. An optional field that is absent
  (\<^verbatim>\<open>undefined\<close>) is \<open>None\<close>; every other field of the descriptor is kept in
  \<open>prop_other\<close>; a descriptor without nested props has \<open>prop_props = []\<close>.
\<close>

datatype 'a ComponentProp =
  Prop (prop_name: string) (prop_title: "string option") (prop_group: "string option")
       (prop_other: 'a) (prop_props: "'a ComponentProp list")

subsection \<open>normalizeComponentProps\<close>

text \<open>
  \<^verbatim>\<open>const groups: Record<string, ComponentPropType[]> = {}\<close> is an object literal: a read
  \<^verbatim>\<open>groups[group]\<close> finds an own property, and otherwise the property that the object
  inherits from \<^verbatim>\<open>Object.prototype\<close>. The own properties are the map \<open>'a groups\<close>; the
  inherited ones are the names below, each bound to a function (or, for \<^verbatim>\<open>__proto__\<close>, to
  the prototype object), hence truthy and without a \<^verbatim>\<open>push\<close> method.
\<close>

type_synonym 'a groups = "string \<rightharpoonup> 'a ComponentProp list"

definition Object_prototype_keys :: "string list" where
  "Object_prototype_keys =
     [''constructor'', ''__defineGetter__'', ''__defineSetter__'', ''hasOwnProperty'',
      ''__lookupGetter__'', ''__lookupSetter__'', ''isPrototypeOf'', ''propertyIsEnumerable'',
      ''toString'', ''valueOf'', ''__proto__'', ''toLocaleString'']"

text \<open>\<^verbatim>\<open>prop.group || 'basic'\<close>: an absent group and the empty string are both falsy.\<close>

definition group_of :: "'a ComponentProp \<Rightarrow> string" where
  "group_of prop =
     (case prop_group prop of
        None \<Rightarrow> ''basic''
      | Some g \<Rightarrow> if g = [] then ''basic'' else g)"

text \<open>
  The body of the \<^verbatim>\<open>forEach\<close> callback. An own property holds an array, which is truthy
  even when empty, so the array is created only when the read gives \<^verbatim>\<open>undefined\<close>. When
  the read gives an inherited value, no array is created and calling \<^verbatim>\<open>push\<close> on that
  value throws a \<^verbatim>\<open>TypeError\<close>.
\<close>

definition normalize_step :: "'a groups \<Rightarrow> 'a ComponentProp \<Rightarrow> js_error + 'a groups" where
  "normalize_step groups prop =
     (let group = group_of prop in
      case groups group of
        Some ps \<Rightarrow> Inr (groups(group \<mapsto> ps @ [prop]))
      | None \<Rightarrow>
          if group \<in> set Object_prototype_keys then Inl TypeError
          else Inr (groups(group \<mapsto> [] @ [prop])))"

fun normalize_forEach :: "'a ComponentProp list \<Rightarrow> 'a groups \<Rightarrow> js_error + 'a groups" where
  "normalize_forEach [] groups = Inr groups"
| "normalize_forEach (prop # props) groups =
     (case normalize_step groups prop of
        Inl e \<Rightarrow> Inl e
      | Inr groups' \<Rightarrow> normalize_forEach props groups')"

definition normalizeComponentProps :: "'a ComponentProp list \<Rightarrow> js_error + 'a groups" where
  "normalizeComponentProps props = normalize_forEach props Map.empty"

subsection \<open>filterComponentProps\<close>

text \<open>
  \<^verbatim>\<open>new RegExp(keyword, 'ig')\<close> builds one pattern object that carries the mutable field
  \<^verbatim>\<open>lastIndex\<close>, initially 0. The matching engine is a built-in of the language; it is a
  parameter of the model: a \<open>matcher\<close> takes the subject string \<open>s\<close> and a start index
  \<open>i \<le> length s\<close> and gives the end index of the leftmost match that starts at or after
  \<open>i\<close>, or \<open>None\<close> when there is none. The constructor is a function from the keyword to
  a matcher, \<open>None\<close> when the keyword is not a well-formed pattern (the constructor throws
  a \<^verbatim>\<open>SyntaxError\<close>).
\<close>

type_synonym matcher = "string \<Rightarrow> nat \<Rightarrow> nat option"

text \<open>
  \<^verbatim>\<open>pattern.test(s)\<close> for a pattern with the global flag: the search starts at
  \<^verbatim>\<open>lastIndex\<close>; a match stores its end index in \<^verbatim>\<open>lastIndex\<close>; a failure, or a
  \<^verbatim>\<open>lastIndex\<close> beyond the end of \<open>s\<close>, resets \<^verbatim>\<open>lastIndex\<close> to 0. The field is passed
  in and returned.
\<close>

definition test :: "matcher \<Rightarrow> string \<Rightarrow> nat \<Rightarrow> bool \<times> nat" where
  "test pattern s lastIndex =
     (if lastIndex > length s then (False, 0)
      else case pattern s lastIndex of
             None \<Rightarrow> (False, 0)
           | Some e \<Rightarrow> (True, e))"

text \<open>The argument of \<^verbatim>\<open>test\<close> is converted to a string: \<^verbatim>\<open>undefined\<close> becomes its name.\<close>

definition ToString :: "string option \<Rightarrow> string" where
  "ToString v = (case v of None \<Rightarrow> ''undefined'' | Some s \<Rightarrow> s)"

text \<open>
  The callback \<^verbatim>\<open>(prop) => pattern.test(prop.title) || pattern.test(prop.name)\<close>; the
  second test runs only when the first fails, on the \<^verbatim>\<open>lastIndex\<close> the first one left.
\<close>

definition matches :: "matcher \<Rightarrow> 'a ComponentProp \<Rightarrow> nat \<Rightarrow> bool \<times> nat" where
  "matches pattern prop lastIndex =
     (case test pattern (ToString (prop_title prop)) lastIndex of
        (True, lastIndex') \<Rightarrow> (True, lastIndex')
      | (False, lastIndex') \<Rightarrow> test pattern (prop_name prop) lastIndex')"

text \<open>
  Modelled from the spec: \<^verbatim>\<open>filterTreeData\<close> is a function of the helpers package, which
  is not among the sources. It is modelled as the words "keeps exactly those props
  (recursing through nested props children)" that satisfy the callback say: the callback
  is called on the nodes of a list in order, a node that fails it is dropped, and a node
  that passes it is kept with its nested props filtered in the same way. The state \<open>'s\<close>
  is whatever the callback mutates between calls.
\<close>

fun filterTreeData ::
  "'a ComponentProp list \<Rightarrow> ('a ComponentProp \<Rightarrow> 's \<Rightarrow> bool \<times> 's) \<Rightarrow> 's
     \<Rightarrow> 'a ComponentProp list \<times> 's" where
  "filterTreeData [] f s = ([], s)"
| "filterTreeData (Prop n t g x cs # ps) f s =
     (case f (Prop n t g x cs) s of
        (True, s1) \<Rightarrow>
          (case filterTreeData cs f s1 of
             (cs', s2) \<Rightarrow>
               (case filterTreeData ps f s2 of
                  (ps', s3) \<Rightarrow> (Prop n t g x cs' # ps', s3)))
      | (False, s1) \<Rightarrow> filterTreeData ps f s1)"

definition filterComponentProps ::
  "(string \<Rightarrow> matcher option) \<Rightarrow> 'a ComponentProp list \<Rightarrow> string
     \<Rightarrow> js_error + 'a ComponentProp list" where
  "filterComponentProps RegExp props keyword =
     (if keyword = [] then Inr props
      else case RegExp keyword of
             None \<Rightarrow> Inl SyntaxError
           | Some pattern \<Rightarrow> Inr (fst (filterTreeData props (matches pattern) 0)))"

subsection \<open>A pattern engine for keywords without metacharacters\<close>

text \<open>
  For a keyword of ASCII characters none of which is a metacharacter of the pattern
  language, the pattern \<^verbatim>\<open>new RegExp(keyword, 'ig')\<close> matches the occurrences of the
  keyword as a substring, letters compared without regard to case. \<open>RegExp_literal\<close> is
  that engine; it is used to run the model on concrete inputs.
\<close>

definition lower :: "char \<Rightarrow> char" where
  "lower c =
     (let n = (of_char c :: nat) in if 65 \<le> n \<and> n \<le> 90 then char_of (n + 32) else c)"

fun starts_with_ci :: "string \<Rightarrow> string \<Rightarrow> bool" where
  "starts_with_ci [] s = True"
| "starts_with_ci (k # ks) [] = False"
| "starts_with_ci (k # ks) (c # cs) = (lower k = lower c \<and> starts_with_ci ks cs)"

fun search :: "string \<Rightarrow> string \<Rightarrow> nat \<Rightarrow> nat option" where
  "search kw [] pos = (if starts_with_ci kw [] then Some (pos + length kw) else None)"
| "search kw (c # cs) pos =
     (if starts_with_ci kw (c # cs) then Some (pos + length kw) else search kw cs (Suc pos))"

definition RegExp_literal :: "string \<Rightarrow> matcher option" where
  "RegExp_literal keyword = Some (\<lambda>s i. search keyword (drop i s) i)"

section \<open>The history engine\<close>

text \<open>
  Modelled from the spec: the class \<^verbatim>\<open>TangoHistory\<close> lives in a module that is not among
  the sources; the workspace interface only declares a field of that type. The model
  follows the contract of the history engine in the spec: a single linear sequence of
  entries with one cursor. The operations \<^verbatim>\<open>record\<close>, \<^verbatim>\<open>undo\<close> and \<^verbatim>\<open>redo\<close> are
  \<open>record_entry\<close>, \<open>undo\<close> and \<open>redo\<close>; the entry type is left open.
\<close>

record 'e TangoHistory =
  entries :: "'e list"
  cursor :: nat

datatype history_error = NothingToUndo | NothingToRedo

text \<open>
  Modelled from the spec: a history starts empty, and the cursor never points past the
  tail of the sequence.
\<close>

definition empty_history :: "'e TangoHistory" where
  "empty_history = \<lparr>entries = [], cursor = 0\<rparr>"

definition history_ok :: "'e TangoHistory \<Rightarrow> bool" where
  "history_ok h = (cursor h \<le> length (entries h))"

text \<open>
  Modelled from the spec: "\<^verbatim>\<open>record(entry)\<close>: appends at cursor, truncates any forward
  entries". The entry is stored at the cursor's position and the cursor moves past it.
\<close>

definition record_entry :: "'e \<Rightarrow> 'e TangoHistory \<Rightarrow> 'e TangoHistory" where
  "record_entry e h = \<lparr>entries = take (cursor h) (entries h) @ [e], cursor = Suc (cursor h)\<rparr>"

text \<open>
  Modelled from the spec: "\<^verbatim>\<open>undo()\<close> fails with \<^verbatim>\<open>NothingToUndo\<close> if cursor is at sequence
  start; otherwise applies the inverse of the entry immediately before the cursor and
  moves cursor back one". The entry to invert is returned with the new history.
\<close>

definition undo :: "'e TangoHistory \<Rightarrow> history_error + ('e \<times> 'e TangoHistory)" where
  "undo h =
     (if cursor h = 0 then Inl NothingToUndo
      else Inr (entries h ! (cursor h - 1), h\<lparr>cursor := cursor h - 1\<rparr>))"

text \<open>
  Modelled from the spec: "\<^verbatim>\<open>redo()\<close> fails with \<^verbatim>\<open>NothingToRedo\<close> if cursor is at sequence
  end; otherwise re-applies the entry at the cursor and advances it". The entry to apply
  again is returned with the new history.
\<close>

definition redo :: "'e TangoHistory \<Rightarrow> history_error + ('e \<times> 'e TangoHistory)" where
  "redo h =
     (if cursor h \<ge> length (entries h) then Inl NothingToRedo
      else Inr (entries h ! cursor h, h\<lparr>cursor := Suc (cursor h)\<rparr>))"

section \<open>Properties of the setting form functions\<close>

text \<open>
  C9. With an empty keyword, \<^verbatim>\<open>filterComponentProps\<close> returns the props list it was
  given, whatever the list and whatever the pattern engine: the early return comes
  before the pattern is built, so nothing can throw.
\<close>

theorem filterComponentProps_empty_keyword:
  "filterComponentProps RegExp props [] = Inr props"
  by (simp add: filterComponentProps_def)

text \<open>
  C10. For a non-empty keyword the claim says that \<^verbatim>\<open>filterComponentProps\<close> keeps exactly
  the props whose title or name matches the keyword, each prop judged on its own. The
  pattern is built with the global flag, so \<^verbatim>\<open>test\<close> resumes at the index where the
  previous match ended. With the keyword \<open>a\<close>, the prop titled \<open>a\<close> is kept when it is the
  only prop, and dropped when it follows a prop titled \<open>xa\<close>: the first match leaves
  \<^verbatim>\<open>lastIndex = 2\<close>, which is beyond the end of the title \<open>a\<close>.
\<close>

theorem filterComponentProps_global_flag:
  "filterComponentProps RegExp_literal
     [Prop ''p'' (Some ''xa'') None () [], Prop ''b'' (Some ''a'') None () []] ''a''
     = Inr [Prop ''p'' (Some ''xa'') None () []]
   \<and> filterComponentProps RegExp_literal [Prop ''b'' (Some ''a'') None () []] ''a''
     = Inr [Prop ''b'' (Some ''a'') None () []]"
  by (simp add: filterComponentProps_def RegExp_literal_def matches_def test_def ToString_def
      lower_def)

text \<open>
  A prop that stands alone and has no nested props is judged on a fresh pattern
  (\<^verbatim>\<open>lastIndex = 0\<close>, also after a failed test of the title): it is kept exactly when the
  pattern occurs in its title or in its name.
\<close>

lemma filterComponentProps_single_prop:
  assumes "keyword \<noteq> []" and "RegExp keyword = Some pattern"
  shows "filterComponentProps RegExp [Prop n t g x []] keyword
     = Inr (if pattern (ToString t) 0 \<noteq> None \<or> pattern n 0 \<noteq> None
            then [Prop n t g x []] else [])"
  using assms
  by (auto simp: filterComponentProps_def matches_def test_def split: option.splits)

subsection \<open>Grouping\<close>

lemma normalize_forEach_ok:
  "\<forall>p\<in>set props. group_of p \<notin> set Object_prototype_keys \<Longrightarrow>
   normalize_forEach props groups =
     Inr (\<lambda>g. if filter (\<lambda>p. group_of p = g) props = [] then groups g
               else Some ((case groups g of None \<Rightarrow> [] | Some ps \<Rightarrow> ps)
                          @ filter (\<lambda>p. group_of p = g) props))"
proof (induction props arbitrary: groups)
  case Nil
  then show ?case by simp
next
  case (Cons p props)
  have ok: "group_of p \<notin> set Object_prototype_keys" and
       rest: "\<forall>q\<in>set props. group_of q \<notin> set Object_prototype_keys"
    using Cons.prems by simp_all
  show ?case
  proof (cases "groups (group_of p)")
    case None
    then have step: "normalize_step groups p = Inr (groups(group_of p \<mapsto> [p]))"
      using ok by (simp add: normalize_step_def)
    show ?thesis
      using None by (simp add: step Cons.IH [OF rest] fun_eq_iff)
  next
    case (Some ps)
    then have step: "normalize_step groups p = Inr (groups(group_of p \<mapsto> ps @ [p]))"
      by (simp add: normalize_step_def)
    show ?thesis
      using Some by (simp add: step Cons.IH [OF rest] fun_eq_iff)
  qed
qed

lemma count_list_filter_eq:
  "count_list (filter P xs) x = (if P x then count_list xs x else 0)"
  by (induction xs) auto

text \<open>
  C8, as the claim states it, fails on two inputs. A prop whose group field is the empty
  string is put in the group \<open>basic\<close>: the field is present, and no group named by it
  exists. A prop whose group is the name of an inherited property of the object literal
  makes the function throw.
\<close>

theorem normalizeComponentProps_counterexample:
  "normalizeComponentProps [Prop ''x'' None (Some '''') () []]
     = Inr [''basic'' \<mapsto> [Prop ''x'' None (Some '''') () []]]
   \<and> normalizeComponentProps [Prop ''y'' None (Some ''constructor'') () []] = Inl TypeError"
  by (simp add: normalizeComponentProps_def normalize_step_def group_of_def
      Object_prototype_keys_def)

text \<open>
  C8, amended. For every props list in which no prop's group is the name of a property
  inherited from \<^verbatim>\<open>Object.prototype\<close>, \<^verbatim>\<open>normalizeComponentProps\<close> returns a partition of
  the list into groups. The group of a prop is \<open>group_of\<close>: the one named by its group
  field, and \<open>basic\<close> when the field is absent or the empty string. The group \<open>g\<close> exists
  exactly when some prop belongs to it and is then the sublist of the props that belong
  to it, in input order. So every prop of the input is in its own group and in no other,
  no group is empty, the union of the groups is the input, and every prop occurs in the
  groups together as often as in the input.
\<close>

theorem normalizeComponentProps_partition:
  assumes "\<forall>p\<in>set props. group_of p \<notin> set Object_prototype_keys"
  shows "\<exists>groups. normalizeComponentProps props = Inr groups
     \<and> (\<forall>g. groups g = (if filter (\<lambda>p. group_of p = g) props = [] then None
                          else Some (filter (\<lambda>p. group_of p = g) props)))
     \<and> (\<forall>p\<in>set props. \<exists>ps. groups (group_of p) = Some ps \<and> p \<in> set ps)
     \<and> (\<forall>g ps. groups g = Some ps \<longrightarrow> ps \<noteq> [] \<and> (\<forall>p\<in>set ps. group_of p = g))
     \<and> (\<Union>ps\<in>ran groups. set ps) = set props
     \<and> (\<forall>p. (\<Sum>g\<in>dom groups. count_list (the (groups g)) p) = count_list props p)"
proof -
  define groups where
    "groups = (\<lambda>g. if filter (\<lambda>p. group_of p = g) props = [] then None
                    else Some (filter (\<lambda>p. group_of p = g) props))"
  have res: "normalizeComponentProps props = Inr groups"
    unfolding normalizeComponentProps_def groups_def
    by (simp add: normalize_forEach_ok [OF assms] fun_eq_iff)
  have char: "\<forall>g. groups g = (if filter (\<lambda>p. group_of p = g) props = [] then None
                          else Some (filter (\<lambda>p. group_of p = g) props))"
    by (simp add: groups_def)
  have mem: "\<forall>p\<in>set props. \<exists>ps. groups (group_of p) = Some ps \<and> p \<in> set ps"
    by (auto simp: groups_def filter_empty_conv)
  have only: "\<forall>g ps. groups g = Some ps \<longrightarrow> ps \<noteq> [] \<and> (\<forall>p\<in>set ps. group_of p = g)"
    by (auto simp: groups_def split: if_splits)
  have un: "(\<Union>ps\<in>ran groups. set ps) = set props"
  proof
    show "(\<Union>ps\<in>ran groups. set ps) \<subseteq> set props"
      by (auto simp: ran_def groups_def split: if_splits)
    show "set props \<subseteq> (\<Union>ps\<in>ran groups. set ps)"
    proof
      fix p assume "p \<in> set props"
      with mem obtain ps where "groups (group_of p) = Some ps" "p \<in> set ps" by blast
      then show "p \<in> (\<Union>ps\<in>ran groups. set ps)" by (auto simp: ran_def)
    qed
  qed
  have dom: "dom groups = group_of ` set props"
    by (auto simp: groups_def dom_def filter_empty_conv)
  have cnt: "\<forall>p. (\<Sum>g\<in>dom groups. count_list (the (groups g)) p) = count_list props p"
  proof
    fix p
    have "(\<Sum>g\<in>dom groups. count_list (the (groups g)) p)
        = (\<Sum>g\<in>dom groups. if group_of p = g then count_list props p else 0)"
    proof (rule sum.cong [OF refl])
      fix g assume "g \<in> dom groups"
      then have "the (groups g) = filter (\<lambda>q. group_of q = g) props"
        by (auto simp: groups_def dom_def split: if_splits)
      then show "count_list (the (groups g)) p = (if group_of p = g then count_list props p else 0)"
        by (simp add: count_list_filter_eq)
    qed
    also have "\<dots> = (if group_of p \<in> dom groups then count_list props p else 0)"
      by (simp add: dom)
    also have "\<dots> = count_list props p"
      by (auto simp: dom count_list_0_iff)
    finally show "(\<Sum>g\<in>dom groups. count_list (the (groups g)) p) = count_list props p" .
  qed
  from res char mem only un cnt show ?thesis by blast
qed

text \<open>
  The partition of four props: two of the group \<open>event\<close>, one without a group and one
  whose group is the empty string.
\<close>

theorem normalizeComponentProps_partition_witness:
  "list_all (\<lambda>p. group_of p \<notin> set Object_prototype_keys)
     [Prop ''a'' None (Some ''event'') () [], Prop ''b'' None None () [],
      Prop ''c'' None (Some ''event'') () [], Prop ''d'' None (Some '''') () []]
   \<and> normalizeComponentProps
        [Prop ''a'' None (Some ''event'') () [], Prop ''b'' None None () [],
         Prop ''c'' None (Some ''event'') () [], Prop ''d'' None (Some '''') () []]
      = Inr [''event'' \<mapsto> [Prop ''a'' None (Some ''event'') () [],
                            Prop ''c'' None (Some ''event'') () []],
             ''basic'' \<mapsto> [Prop ''b'' None None () [], Prop ''d'' None (Some '''') () []]]"
proof -
  define props :: "unit ComponentProp list" where
    "props = [Prop ''a'' None (Some ''event'') () [], Prop ''b'' None None () [],
      Prop ''c'' None (Some ''event'') () [], Prop ''d'' None (Some '''') () []]"
  have h: "\<forall>p\<in>set props. group_of p \<notin> set Object_prototype_keys"
    by (simp add: props_def group_of_def Object_prototype_keys_def)
  from normalizeComponentProps_partition [OF h]
  obtain groups where res: "normalizeComponentProps props = Inr groups"
    and char: "\<forall>g. groups g = (if filter (\<lambda>p. group_of p = g) props = [] then None
                          else Some (filter (\<lambda>p. group_of p = g) props))"
    by (elim exE conjE) (rule that)
  have "groups g = [''event'' \<mapsto> [Prop ''a'' None (Some ''event'') () [],
                            Prop ''c'' None (Some ''event'') () []],
             ''basic'' \<mapsto> [Prop ''b'' None None () [], Prop ''d'' None (Some '''') () []]] g"
    for g
    by (simp add: char props_def group_of_def)
  then have "groups = [''event'' \<mapsto> [Prop ''a'' None (Some ''event'') () [],
                            Prop ''c'' None (Some ''event'') () []],
             ''basic'' \<mapsto> [Prop ''b'' None None () [], Prop ''d'' None (Some '''') () []]]"
    by (rule ext)
  with res have eq: "normalizeComponentProps props
      = Inr [''event'' \<mapsto> [Prop ''a'' None (Some ''event'') () [],
                            Prop ''c'' None (Some ''event'') () []],
             ''basic'' \<mapsto> [Prop ''b'' None None () [], Prop ''d'' None (Some '''') () []]]"
    by simp
  have la: "list_all (\<lambda>p. group_of p \<notin> set Object_prototype_keys) props"
    using h by (simp add: list_all_iff)
  from la eq show ?thesis
    unfolding props_def by (rule conjI)
qed

section \<open>Properties of the history engine\<close>

lemma history_ok_empty: "history_ok empty_history"
  by (simp add: history_ok_def empty_history_def)

lemma history_ok_record_entry: "history_ok h \<Longrightarrow> history_ok (record_entry e h)"
  by (simp add: history_ok_def record_entry_def)

lemma history_ok_undo: "history_ok h \<Longrightarrow> undo h = Inr (e, h') \<Longrightarrow> history_ok h'"
  by (auto simp: history_ok_def undo_def split: if_splits)

lemma history_ok_redo: "history_ok h \<Longrightarrow> redo h = Inr (e, h') \<Longrightarrow> history_ok h'"
  by (auto simp: history_ok_def redo_def split: if_splits)

lemma record_entry_at_tail:
  "history_ok h \<Longrightarrow> cursor (record_entry e h) = length (entries (record_entry e h))"
  by (simp add: history_ok_def record_entry_def)

text \<open>
  C4. Recording an entry stores it at the cursor and drops every entry from the cursor
  on, which leaves the cursor at the tail. So in a history whose cursor is within the
  sequence, after an \<^verbatim>\<open>undo\<close> that succeeds and the recording of any new entry (what a
  mutating operation does when it succeeds), \<^verbatim>\<open>redo\<close> fails with \<^verbatim>\<open>NothingToRedo\<close>: the
  undone entry is gone.
\<close>

theorem history_linearity:
  assumes "history_ok h" and "undo h = Inr (x, h')"
  shows "entries (record_entry e h') = take (cursor h') (entries h) @ [e]
     \<and> cursor (record_entry e h') = length (entries (record_entry e h'))
     \<and> redo (record_entry e h') = Inl NothingToRedo"
proof -
  have ok: "history_ok h'"
    using assms by (rule history_ok_undo)
  have same: "entries h' = entries h"
    using assms(2) by (auto simp: undo_def split: if_splits)
  have tail: "cursor (record_entry e h') = length (entries (record_entry e h'))"
    using ok by (rule record_entry_at_tail)
  have "redo (record_entry e h') = Inl NothingToRedo"
    by (simp add: redo_def tail)
  moreover have "entries (record_entry e h') = take (cursor h') (entries h) @ [e]"
    by (simp add: record_entry_def same)
  ultimately show ?thesis using tail by simp
qed

text \<open>
  Three entries recorded, the last one undone, then a new entry recorded: the history
  holds the first two entries and the new one, and there is nothing to redo.
\<close>

theorem history_linearity_witness:
  "history_ok \<lparr>entries = [1, 2, 3 :: nat], cursor = 3\<rparr>
   \<and> undo \<lparr>entries = [1, 2, 3 :: nat], cursor = 3\<rparr>
       = Inr (3, \<lparr>entries = [1, 2, 3], cursor = 2\<rparr>)
   \<and> entries (record_entry 9 \<lparr>entries = [1, 2, 3 :: nat], cursor = 2\<rparr>) = [1, 2, 9]
   \<and> redo (record_entry 9 \<lparr>entries = [1, 2, 3 :: nat], cursor = 2\<rparr>) = Inl NothingToRedo"
proof -
  have ok: "history_ok \<lparr>entries = [1, 2, 3 :: nat], cursor = 3\<rparr>"
    by (simp add: history_ok_def)
  have u: "undo \<lparr>entries = [1, 2, 3 :: nat], cursor = 3\<rparr>
             = Inr (3, \<lparr>entries = [1, 2, 3], cursor = 2\<rparr>)"
    by (simp add: undo_def)
  from history_linearity [OF ok u, of 9] show ?thesis
    using ok u by simp
qed

end
